theory Spec2Isabelle
  imports Complex_Main "HOL-Library.AList"
begin

section \<open>Exceptions and module constants of \<^verbatim>\<open>sudoku.py\<close>\<close>

text \<open>
  The model covers the fields of \<^verbatim>\<open>SudokuApp\<close> that are not Tk widgets, the module
  constants and the persistence helpers. Widgets are the outside world: the text of the
  selected entry is an argument of \<^verbatim>\<open>check_selected\<close>, a clock reading
  (\<^verbatim>\<open>time.time()\<close>) is an argument of every operation that reads the clock, and the
  draw of \<^verbatim>\<open>random.choice\<close> is an argument \<open>seed\<close>. Timestamps are real numbers;
  the rounding of floating-point subtraction is not modelled. Entry texts are ASCII.

  An operation that can raise returns \<open>Inl (e, s')\<close>, where \<open>s'\<close> is the state the
  object is left in when the exception escapes (Tk reports the exception of a callback
  and the main loop goes on with that state).
\<close>

datatype py_error = IndexError | KeyError | ValueError | TypeError

definition PUZZLES :: "(string \<times> (string \<times> string) list) list" where
  "PUZZLES =
    [(''Easy'',
       [(''530070000600195000098000060800060003400803001700020006060000280000419005000080079'',
         ''534678912672195348198342567859761423426853791713924856961537284287419635345286179''),
        (''040000000060105000009030070008302900700000004006708100010080600000406090000000050'',
         ''541697832867145329239831476418362957753219864926758143314985672582476391697123548'')]),
     (''Medium'',
       [(''000260701680070090190004500820100040004602900050003028009300074040050036703018000'',
         ''435269781682571493197834562826195347374682915951743628519326874248957136763418259''),
        (''030000080006000107000009030040007500700060004003500070020100000904000600010000020'',
         ''137645289496832157582719436249317568751968324863524971628153794974281653315476892'')]),
     (''Hard'',
       [(''000000907000420180000705026100904000050000040000507009920108000034059000507000000'',
         ''812653947573492186496715326169934852258176943734527619925168734384259761567341298''),
        (''300000000005009000200504000000700000000000030040000006000000105000030000000201000'',
         ''397126584415389672286574319163798452872465931549812736638947125721653948954231867'')])]"

text \<open>The keys of \<^verbatim>\<open>SKINS\<close>, in insertion order (the colours are presentation only).\<close>

definition SKINS_keys :: "string list" where
  "SKINS_keys = [''Classic'', ''Ocean'', ''Sunset'', ''Forest'']"

definition SKIN_PRICES :: "(string \<times> int) list" where
  "SKIN_PRICES = [(''Ocean'', 60), (''Sunset'', 60), (''Forest'', 60)]"

section \<open>Helpers\<close>

definition grid_index :: "nat \<Rightarrow> nat \<Rightarrow> nat" where
  "grid_index r c = r * 9 + c"

text \<open>\<^verbatim>\<open>int(ch)\<close> on one ASCII character: a decimal digit or \<^verbatim>\<open>ValueError\<close>.\<close>

definition digit_val :: "char \<Rightarrow> int option" where
  "digit_val ch =
     (let n = (of_char ch :: nat)
      in if 48 \<le> n \<and> n \<le> 57 then Some (int n - 48) else None)"

fun parse_grid :: "string \<Rightarrow> py_error + int list" where
  "parse_grid [] = Inr []"
| "parse_grid (ch # s) =
     (case digit_val ch of
        None \<Rightarrow> Inl ValueError
      | Some d \<Rightarrow> (case parse_grid s of Inl e \<Rightarrow> Inl e | Inr ds \<Rightarrow> Inr (d # ds)))"

text \<open>\<^verbatim>\<open>random.choice(seq)\<close> is \<^verbatim>\<open>seq[randbelow(len(seq))]\<close>; the draw is \<open>seed mod len\<close>.
  On an empty sequence it raises \<^verbatim>\<open>IndexError\<close>.\<close>

definition random_choice :: "'a list \<Rightarrow> nat \<Rightarrow> py_error + 'a" where
  "random_choice xs seed =
     (if xs = [] then Inl IndexError else Inr (xs ! (seed mod length xs)))"

text \<open>\<^verbatim>\<open>str.strip()\<close>, \<^verbatim>\<open>str.isdigit()\<close> and \<^verbatim>\<open>int(text)\<close> on ASCII text.\<close>

definition is_space :: "char \<Rightarrow> bool" where
  "is_space ch =
     (let n = (of_char ch :: nat) in (9 \<le> n \<and> n \<le> 13) \<or> (28 \<le> n \<and> n \<le> 32))"

definition strip :: "string \<Rightarrow> string" where
  "strip s = rev (dropWhile is_space (rev (dropWhile is_space s)))"

definition isdigit :: "string \<Rightarrow> bool" where
  "isdigit s = (s \<noteq> [] \<and> list_all (\<lambda>ch. digit_val ch \<noteq> None) s)"

fun py_int_acc :: "int \<Rightarrow> string \<Rightarrow> py_error + int" where
  "py_int_acc a [] = Inr a"
| "py_int_acc a (ch # s) =
     (case digit_val ch of
        None \<Rightarrow> Inl ValueError
      | Some d \<Rightarrow> py_int_acc (10 * a + d) s)"

definition py_int :: "string \<Rightarrow> py_error + int" where
  "py_int s = (if s = [] then Inl ValueError else py_int_acc 0 s)"

text \<open>\<^verbatim>\<open>int(delta)\<close> on a float truncates towards zero.\<close>

definition int_of_float :: "real \<Rightarrow> int" where
  "int_of_float x = (if 0 \<le> x then \<lfloor>x\<rfloor> else \<lceil>x\<rceil>)"

section \<open>State persistence\<close>

text \<open>
  What \<^verbatim>\<open>json.load\<close> can return (a number is an \<^verbatim>\<open>int\<close> or a \<^verbatim>\<open>float\<close>). A dict is an association list in insertion order;
  \<open>AList.update\<close> is \<^verbatim>\<open>data[k] = v\<close> (overwrite in place, or append a new key).
\<close>

datatype json =
    JNull
  | JBool bool
  | JInt int
  | JFloat real
  | JStr string
  | JArr "json list"
  | JObj "(string \<times> json) list"

definition DEFAULT_SAVE_items :: "(string \<times> json) list" where
  "DEFAULT_SAVE_items =
     [(''coins'', JInt 0),
      (''unlocked'', JArr [JStr ''Easy'']),
      (''owned_skins'', JArr [JStr ''Classic'']),
      (''active_skin'', JStr ''Classic'')]"

definition DEFAULT_SAVE :: json where
  "DEFAULT_SAVE = JObj DEFAULT_SAVE_items"

text \<open>The backing file: missing, present but \<^verbatim>\<open>open\<close>/\<^verbatim>\<open>json.load\<close> raises, or parsed.\<close>

datatype save_file = Absent | Unreadable | Parsed json

fun starts_with :: "string \<Rightarrow> string \<Rightarrow> bool" where
  "starts_with [] s = True"
| "starts_with (a # k) [] = False"
| "starts_with (a # k) (b # s) = (a = b \<and> starts_with k s)"

fun contains :: "string \<Rightarrow> string \<Rightarrow> bool" where
  "contains k [] = (k = [])"
| "contains k (b # s) = (starts_with k (b # s) \<or> contains k s)"

text \<open>\<^verbatim>\<open>k in data\<close>: key of a dict, element of a list, substring of a string, and
  \<^verbatim>\<open>TypeError\<close> on \<^verbatim>\<open>None\<close>, booleans and numbers.\<close>

fun py_in :: "string \<Rightarrow> json \<Rightarrow> py_error + bool" where
  "py_in k (JObj kvs) = Inr (k \<in> fst ` set kvs)"
| "py_in k (JArr xs) = Inr (JStr k \<in> set xs)"
| "py_in k (JStr s) = Inr (contains k s)"
| "py_in k JNull = Inl TypeError"
| "py_in k (JBool b) = Inl TypeError"
| "py_in k (JInt n) = Inl TypeError"
| "py_in k (JFloat x) = Inl TypeError"

text \<open>\<^verbatim>\<open>data[k] = v\<close> with a string key: only a dict accepts it.\<close>

fun py_setitem :: "json \<Rightarrow> string \<Rightarrow> json \<Rightarrow> py_error + json" where
  "py_setitem (JObj kvs) k v = Inr (JObj (AList.update k v kvs))"
| "py_setitem (JArr xs) k v = Inl TypeError"
| "py_setitem (JStr s) k v = Inl TypeError"
| "py_setitem JNull k v = Inl TypeError"
| "py_setitem (JBool b) k v = Inl TypeError"
| "py_setitem (JInt n) k v = Inl TypeError"
| "py_setitem (JFloat x) k v = Inl TypeError"

text \<open>The loop \<^verbatim>\<open>for k, v in DEFAULT_SAVE.items(): if k not in data: data[k] = v\<close>.\<close>

fun ensure_keys :: "(string \<times> json) list \<Rightarrow> json \<Rightarrow> py_error + json" where
  "ensure_keys [] data = Inr data"
| "ensure_keys ((k, v) # items) data =
     (case py_in k data of
        Inl e \<Rightarrow> Inl e
      | Inr True \<Rightarrow> ensure_keys items data
      | Inr False \<Rightarrow>
          (case py_setitem data k v of
             Inl e \<Rightarrow> Inl e
           | Inr data' \<Rightarrow> ensure_keys items data'))"

text \<open>\<^verbatim>\<open>load_state\<close> is called once, from \<^verbatim>\<open>SudokuApp.__init__\<close>, while the lists inside
  \<^verbatim>\<open>DEFAULT_SAVE\<close> still have their initial contents. Every exception of the
  \<^verbatim>\<open>try\<close> block falls through to the default.\<close>

definition load_state :: "save_file \<Rightarrow> json" where
  "load_state f =
     (case f of
        Absent \<Rightarrow> DEFAULT_SAVE
      | Unreadable \<Rightarrow> DEFAULT_SAVE
      | Parsed data \<Rightarrow>
          (case ensure_keys DEFAULT_SAVE_items data of
             Inl e \<Rightarrow> DEFAULT_SAVE
           | Inr data' \<Rightarrow> data'))"


section \<open>The application state\<close>

text \<open>The four entries of \<^verbatim>\<open>self.state_data\<close> that the application reads and writes.\<close>

record state_data_t =
  sd_coins :: int
  unlocked :: "string list"
  owned_skins :: "string list"
  active_skin :: string

record app =
  state_data :: state_data_t
  skin :: string
  current_diff :: string
  score :: int
  coins :: int
  start_time :: "real option"
  last_correct_time :: "real option"
  timer_running :: bool
  selected :: "nat \<times> nat"
  given_mask :: "bool list"
  puzzle :: "int list"
  solution :: "int list"
  info_var :: string

text \<open>Which branch an operation took (the message or dialog the user sees).\<close>

datatype reply =
    GivenCell
  | EnterDigit
  | Correct
  | Wrong
  | Cleared
  | NoEmpties
  | Hinted
  | Locked string
  | Started
  | NotEnoughCoins
  | Purchased
  | NotOwned
  | Activated

type_synonym 'a result = "(py_error \<times> app) + ('a \<times> app)"

text \<open>The state an operation leaves behind, whether it returned or raised.\<close>

definition after :: "'a result \<Rightarrow> app" where
  "after res = (case res of Inl (e, s) \<Rightarrow> s | Inr (x, s) \<Rightarrow> s)"

section \<open>Game logic\<close>

text \<open>\<^verbatim>\<open>all(self.puzzle[i] == self.solution[i] for i in range(81))\<close>: stops at the first
  mismatch, raises \<^verbatim>\<open>IndexError\<close> when an index is reached that a list does not have.\<close>

fun all_equal :: "nat list \<Rightarrow> int list \<Rightarrow> int list \<Rightarrow> py_error + bool" where
  "all_equal [] p q = Inr True"
| "all_equal (i # js) p q =
     (if i < length p \<and> i < length q
      then (if p ! i = q ! i then all_equal js p q else Inr False)
      else Inl IndexError)"

definition is_completed :: "app \<Rightarrow> py_error + bool" where
  "is_completed s = all_equal [0..<81] (puzzle s) (solution s)"

definition bonus_table :: "(string \<times> int) list" where
  "bonus_table = [(''Easy'', 20), (''Medium'', 40), (''Hard'', 60)]"

definition tier_order :: "string list" where
  "tier_order = [''Easy'', ''Medium'', ''Hard'']"

text \<open>\<^verbatim>\<open>list.index\<close>: position of the first occurrence, \<^verbatim>\<open>ValueError\<close> (here \<open>None\<close>) without one.\<close>

fun list_index :: "'a list \<Rightarrow> 'a \<Rightarrow> nat option" where
  "list_index [] x = None"
| "list_index (y # ys) x =
     (if y = x then Some 0 else map_option Suc (list_index ys x))"

text \<open>\<^verbatim>\<open>on_win\<close> returns the bonus and the tier named in the unlock message, if any.\<close>

definition on_win :: "app \<Rightarrow> (int \<times> string option) result" where
  "on_win s =
     (let s0 = s\<lparr>timer_running := False\<rparr>;
          diff = current_diff s
      in case map_of bonus_table diff of
           None \<Rightarrow> Inl (KeyError, s0)
         | Some bonus \<Rightarrow>
             (let s1 = s0\<lparr>coins := coins s + bonus,
                         state_data := (state_data s)\<lparr>sd_coins := coins s + bonus\<rparr>\<rparr>
              in case list_index tier_order diff of
                   None \<Rightarrow> Inl (ValueError, s1)
                 | Some i \<Rightarrow>
                     if i + 1 < length tier_order
                     then (let next_diff = tier_order ! (i + 1)
                           in if next_diff \<notin> set (unlocked (state_data s1))
                              then Inr ((bonus, Some next_diff),
                                        s1\<lparr>state_data := (state_data s1)
                                             \<lparr>unlocked := unlocked (state_data s1) @ [next_diff]\<rparr>\<rparr>)
                              else Inr ((bonus, None), s1))
                     else Inr ((bonus, None), s1)))"

text \<open>The tail shared by \<^verbatim>\<open>check_selected\<close> and \<^verbatim>\<open>give_hint\<close>:
  \<^verbatim>\<open>if self.is_completed(): self.on_win()\<close>.\<close>

definition win_check :: "'a \<Rightarrow> app \<Rightarrow> 'a result" where
  "win_check x s =
     (case is_completed s of
        Inl e \<Rightarrow> Inl (e, s)
      | Inr False \<Rightarrow> Inr (x, s)
      | Inr True \<Rightarrow> (case on_win s of Inl (e, s') \<Rightarrow> Inl (e, s') | Inr (b, s') \<Rightarrow> Inr (x, s')))"

definition new_game :: "app \<Rightarrow> string \<Rightarrow> nat \<Rightarrow> real \<Rightarrow> real \<Rightarrow> reply result" where
  "new_game s diff seed now1 now2 =
     (case map_of PUZZLES diff of
        None \<Rightarrow> Inl (KeyError, s)
      | Some recs \<Rightarrow>
          (case random_choice recs seed of
             Inl e \<Rightarrow> Inl (e, s)
           | Inr (puzzle_str, solution_str) \<Rightarrow>
               (case parse_grid puzzle_str of
                  Inl e \<Rightarrow> Inl (e, s)
                | Inr p \<Rightarrow>
                    (case parse_grid solution_str of
                       Inl e \<Rightarrow> Inl (e, s\<lparr>puzzle := p\<rparr>)
                     | Inr q \<Rightarrow>
                         (let s1 = s\<lparr>puzzle := p, solution := q,
                                     given_mask := map (\<lambda>v. v \<noteq> 0) p,
                                     score := 0,
                                     info_var := ''Fill cells. Faster correct checks = more points!''\<rparr>
                          in if length p < 81 then Inl (IndexError, s1)
                             else Inr (Started,
                                       s1\<lparr>selected := (0, 0),
                                          last_correct_time := Some now1,
                                          start_time := Some now2,
                                          timer_running := True\<rparr>))))))"

definition on_diff_change :: "app \<Rightarrow> nat \<Rightarrow> real \<Rightarrow> real \<Rightarrow> reply result" where
  "on_diff_change s seed now1 now2 =
     (let diff = current_diff s
      in if diff \<notin> set (unlocked (state_data s))
         then (if unlocked (state_data s) = [] then Inl (IndexError, s)
               else (let allowed = last (unlocked (state_data s))
                     in Inr (Locked allowed, s\<lparr>current_diff := allowed\<rparr>)))
         else new_game s diff seed now1 now2)"

definition on_select :: "app \<Rightarrow> nat \<Rightarrow> nat \<Rightarrow> app" where
  "on_select s r c = s\<lparr>selected := (r, c)\<rparr>"

text \<open>\<^verbatim>\<open>clear_selected\<close> only empties the entry widget; the reply tells whether it did.\<close>

definition clear_selected :: "app \<Rightarrow> reply result" where
  "clear_selected s =
     (let idx = grid_index (fst (selected s)) (snd (selected s))
      in if \<not> idx < length (given_mask s) then Inl (IndexError, s)
         else if given_mask s ! idx then Inr (GivenCell, s)
         else Inr (Cleared, s))"

definition check_selected :: "app \<Rightarrow> string \<Rightarrow> real \<Rightarrow> reply result" where
  "check_selected s entry now =
     (let idx = grid_index (fst (selected s)) (snd (selected s))
      in if \<not> idx < length (given_mask s) then Inl (IndexError, s)
         else if given_mask s ! idx
         then Inr (GivenCell, s\<lparr>info_var := ''This is a given cell.''\<rparr>)
         else (let text = strip entry
               in if text = [] \<or> \<not> isdigit text
                  then Inr (EnterDigit, s\<lparr>info_var := ''Enter a digit (1-9).''\<rparr>)
                  else (case py_int text of
                          Inl e \<Rightarrow> Inl (e, s)
                        | Inr guess \<Rightarrow>
                            if \<not> idx < length (solution s) then Inl (IndexError, s)
                            else if guess = solution s ! idx
                            then (let delta = now - (case last_correct_time s of
                                                       None \<Rightarrow> now
                                                     | Some t \<Rightarrow> if t = 0 then now else t);
                                      pts = max 1 (20 - int_of_float delta);
                                      s1 = s\<lparr>last_correct_time := Some now,
                                              score := score s + pts,
                                              coins := coins s + pts div 5,
                                              state_data := (state_data s)
                                                \<lparr>sd_coins := coins s + pts div 5\<rparr>\<rparr>
                                  in if \<not> idx < length (puzzle s) then Inl (IndexError, s1)
                                     else win_check Correct
                                            (s1\<lparr>puzzle := (puzzle s)[idx := guess],
                                                given_mask := (given_mask s)[idx := True]\<rparr>))
                            else Inr (Wrong, s\<lparr>score := max 0 (score s - 1),
                                               info_var := ''Wrong. Try again.''\<rparr>))))"

text \<open>\<^verbatim>\<open>empties = [i for i in range(81) if not self.given_mask[i]]\<close>, once the mask is known
  to have 81 entries.\<close>

definition empties :: "app \<Rightarrow> nat list" where
  "empties s = filter (\<lambda>i. \<not> given_mask s ! i) [0..<81]"

definition give_hint :: "app \<Rightarrow> nat \<Rightarrow> reply result" where
  "give_hint s seed =
     (if length (given_mask s) < 81 then Inl (IndexError, s)
      else if empties s = [] then Inr (NoEmpties, s)
      else (case random_choice (empties s) seed of
              Inl e \<Rightarrow> Inl (e, s)
            | Inr i \<Rightarrow>
                if \<not> i < length (solution s) then Inl (IndexError, s)
                else if \<not> i < length (puzzle s) then Inl (IndexError, s)
                else win_check Hinted
                       (s\<lparr>puzzle := (puzzle s)[i := solution s ! i],
                          given_mask := (given_mask s)[i := True],
                          score := max 0 (score s - 5)\<rparr>)))"

section \<open>Shop\<close>

text \<open>One row of the shop window: the button \<^verbatim>\<open>open_shop\<close> builds for a skin, with the
  arguments its callback is bound to.\<close>

datatype shop_button = ActivateButton string | BuyButton string int

definition open_shop :: "app \<Rightarrow> shop_button list" where
  "open_shop s =
     map (\<lambda>name.
            if name = ''Classic'' then ActivateButton name
            else (let owned = (name \<in> set (owned_skins (state_data s)));
                      price = (case map_of SKIN_PRICES name of None \<Rightarrow> 0 | Some p \<Rightarrow> p)
                  in if owned then ActivateButton name else BuyButton name price))
         SKINS_keys"

definition buy_skin :: "app \<Rightarrow> string \<Rightarrow> int \<Rightarrow> reply \<times> app" where
  "buy_skin s name price =
     (if coins s < price then (NotEnoughCoins, s)
      else (Purchased,
            s\<lparr>coins := coins s - price,
              state_data := (state_data s)
                \<lparr>sd_coins := coins s - price,
                 owned_skins := owned_skins (state_data s) @ [name]\<rparr>\<rparr>))"

definition set_skin :: "app \<Rightarrow> string \<Rightarrow> reply result" where
  "set_skin s name =
     (if name \<notin> set (owned_skins (state_data s)) then Inr (NotOwned, s)
      else (let s1 = s\<lparr>state_data := (state_data s)\<lparr>active_skin := name\<rparr>\<rparr>
            in if name \<notin> set SKINS_keys then Inl (KeyError, s1)
               else Inr (Activated, s1\<lparr>skin := name\<rparr>)))"

section \<open>Start-up state\<close>

text \<open>The entries of \<^verbatim>\<open>DEFAULT_SAVE\<close> as the application reads them, and the fields
  \<^verbatim>\<open>__init__\<close> sets from the loaded \<^verbatim>\<open>state_data\<close> before its first \<^verbatim>\<open>new_game\<close>.\<close>

definition default_state_data :: state_data_t where
  "default_state_data =
     \<lparr>sd_coins = 0, unlocked = [''Easy''], owned_skins = [''Classic''],
      active_skin = ''Classic''\<rparr>"

definition init_app :: "state_data_t \<Rightarrow> app" where
  "init_app sd =
     \<lparr>state_data = sd, skin = active_skin sd, current_diff = ''Easy'', score = 0,
      coins = sd_coins sd, start_time = None, last_correct_time = None,
      timer_running = False, selected = (0, 0), given_mask = replicate 81 False,
      puzzle = replicate 81 0, solution = replicate 81 0,
      info_var = ''Tip: Select a cell, type 1-9, then click 'Check Selected'.''\<rparr>"

section \<open>Sessions and invariants\<close>

text \<open>The callbacks the main loop dispatches during a game, and the state after a
  sequence of them. A callback that raises leaves its partial effects behind.\<close>

datatype event = Select nat nat | Check string real | Clear | Hint nat

fun step :: "app \<Rightarrow> event \<Rightarrow> app" where
  "step s (Select r c) = on_select s r c"
| "step s (Check entry now) = after (check_selected s entry now)"
| "step s Clear = after (clear_selected s)"
| "step s (Hint seed) = after (give_hint s seed)"

fun run :: "app \<Rightarrow> event list \<Rightarrow> app" where
  "run s [] = s"
| "run s (ev # evs) = run (step s ev) evs"

text \<open>A penalty event: a hint, or a check that is answered \<open>Wrong\<close>.\<close>

fun is_penalty :: "app \<Rightarrow> event \<Rightarrow> bool" where
  "is_penalty s (Check entry now) =
     (case check_selected s entry now of Inr (Wrong, s') \<Rightarrow> True | _ \<Rightarrow> False)"
| "is_penalty s (Hint seed) = True"
| "is_penalty s (Select r c) = False"
| "is_penalty s Clear = False"

fun penalties_only :: "app \<Rightarrow> event list \<Rightarrow> bool" where
  "penalties_only s [] = True"
| "penalties_only s (ev # evs) = (is_penalty s ev \<and> penalties_only (step s ev) evs)"

text \<open>The PuzzleRecord invariant: every pre-filled digit equals the solution digit.\<close>

definition record_ok :: "int list \<Rightarrow> int list \<Rightarrow> bool" where
  "record_ok p q = list_all (\<lambda>(a, b). a \<noteq> 0 \<longrightarrow> a = b) (zip p q)"

text \<open>The board invariant: three lists of 81 cells, and every given cell holds its
  solution digit.\<close>

definition board_ok :: "app \<Rightarrow> bool" where
  "board_ok s =
     (length (given_mask s) = 81 \<and> length (puzzle s) = 81 \<and> length (solution s) = 81 \<and>
      (\<forall>i<81. given_mask s ! i \<longrightarrow> puzzle s ! i = solution s ! i))"

text \<open>The progress invariant: \<^verbatim>\<open>unlocked\<close> is a non-empty prefix of the tier order.\<close>

definition unlocked_ok :: "string list \<Rightarrow> bool" where
  "unlocked_ok u = (u \<noteq> [] \<and> take (length u) tier_order = u)"

text \<open>The coins the win check pays on a board: the bonus of \<^verbatim>\<open>current_diff\<close> when the
  board is complete, nothing otherwise.\<close>

definition bonus_due :: "app \<Rightarrow> int" where
  "bonus_due s =
     (case is_completed s of
        Inr True \<Rightarrow> (case map_of bonus_table (current_diff s) of Some b \<Rightarrow> b | None \<Rightarrow> 0)
      | Inr False \<Rightarrow> 0
      | Inl e \<Rightarrow> 0)"

section \<open>Properties\<close>

lemma after_Inr [simp]: "after (Inr (x, s)) = s"
  by (simp add: after_def)

lemma after_Inl [simp]: "after (Inl (e, s)) = s"
  by (simp add: after_def)

lemma on_win_board:
  "puzzle (after (on_win s)) = puzzle s"
  "solution (after (on_win s)) = solution s"
  "given_mask (after (on_win s)) = given_mask s"
  "score (after (on_win s)) = score s"
  "last_correct_time (after (on_win s)) = last_correct_time s"
  "selected (after (on_win s)) = selected s"
  "current_diff (after (on_win s)) = current_diff s"
  by (simp_all add: on_win_def Let_def split: option.splits)

lemma win_check_board:
  "puzzle (after (win_check x s)) = puzzle s"
  "solution (after (win_check x s)) = solution s"
  "given_mask (after (win_check x s)) = given_mask s"
  "score (after (win_check x s)) = score s"
  "last_correct_time (after (win_check x s)) = last_correct_time s"
  "selected (after (win_check x s)) = selected s"
  "current_diff (after (win_check x s)) = current_diff s"
  using on_win_board [of s]
  by (auto simp: win_check_def split: sum.splits bool.splits)

lemma empties_set: "set (empties s) = {i. i < 81 \<and> \<not> given_mask s ! i}"
  unfolding empties_def set_filter set_upt by auto

lemma empties_distinct: "distinct (empties s)"
  unfolding empties_def by (rule distinct_filter) (rule distinct_upt)

lemma random_choice_nth:
  "xs \<noteq> [] \<Longrightarrow> random_choice xs seed = Inr (xs ! (seed mod length xs))"
  by (simp add: random_choice_def)

lemma give_hint_none:
  assumes "length (given_mask s) = 81" and "\<forall>i<81. given_mask s ! i"
  shows "give_hint s seed = Inr (NoEmpties, s)"
proof -
  have "set (empties s) = {}"
    using assms(2) unfolding empties_set by blast
  then have "empties s = []"
    by (simp only: set_empty)
  then show ?thesis
    using assms(1) unfolding give_hint_def by simp
qed

lemma give_hint_some:
  assumes len: "length (given_mask s) = 81" "length (puzzle s) = 81" "length (solution s) = 81"
    and ne: "empties s \<noteq> []"
    and i_def: "i = empties s ! (seed mod length (empties s))"
  shows "i < 81" and "\<not> given_mask s ! i"
    and "give_hint s seed =
          win_check Hinted (s\<lparr>puzzle := (puzzle s)[i := solution s ! i],
                              given_mask := (given_mask s)[i := True],
                              score := max 0 (score s - 5)\<rparr>)"
proof -
  have "seed mod length (empties s) < length (empties s)"
    using ne by simp
  then have "i \<in> set (empties s)"
    unfolding i_def by (rule nth_mem)
  then show i: "i < 81" "\<not> given_mask s ! i"
    unfolding empties_set by blast+
  have rc: "random_choice (empties s) seed = Inr i"
    unfolding i_def by (rule random_choice_nth [OF ne])
  show "give_hint s seed =
          win_check Hinted (s\<lparr>puzzle := (puzzle s)[i := solution s ! i],
                              given_mask := (given_mask s)[i := True],
                              score := max 0 (score s - 5)\<rparr>)"
    unfolding give_hint_def using len ne i(1) by (simp add: rc)
qed

lemma empties_nonempty:
  "\<not> (\<forall>i<81. given_mask s ! i) \<Longrightarrow> empties s \<noteq> []"
proof
  assume "\<not> (\<forall>i<81. given_mask s ! i)" and "empties s = []"
  then have "set (empties s) = {}" by simp
  then show False
    using \<open>\<not> (\<forall>i<81. given_mask s ! i)\<close> unfolding empties_set by blast
qed

subsection \<open>Checking a given cell\<close>

text \<open>
  Claim C8. When the selected cell has \<^verbatim>\<open>given_mask\<close> true, \<^verbatim>\<open>check_selected\<close> answers
  "This is a given cell." and changes nothing else: puzzle, given mask, score, coins (in
  the object and in \<^verbatim>\<open>state_data\<close>) and \<^verbatim>\<open>last_correct_time\<close> are as before.
\<close>

theorem check_selected_given_cell:
  assumes "grid_index (fst (selected s)) (snd (selected s)) < length (given_mask s)"
    and "given_mask s ! grid_index (fst (selected s)) (snd (selected s))"
  shows "check_selected s entry now = Inr (GivenCell, s\<lparr>info_var := ''This is a given cell.''\<rparr>) \<and>
         puzzle (after (check_selected s entry now)) = puzzle s \<and>
         given_mask (after (check_selected s entry now)) = given_mask s \<and>
         score (after (check_selected s entry now)) = score s \<and>
         coins (after (check_selected s entry now)) = coins s \<and>
         state_data (after (check_selected s entry now)) = state_data s \<and>
         last_correct_time (after (check_selected s entry now)) = last_correct_time s"
  using assms by (simp add: check_selected_def Let_def)

theorem check_selected_given_cell_witness:
  "grid_index (fst (selected ((init_app default_state_data)\<lparr>given_mask := replicate 81 True\<rparr>)))
              (snd (selected ((init_app default_state_data)\<lparr>given_mask := replicate 81 True\<rparr>)))
     < length (given_mask ((init_app default_state_data)\<lparr>given_mask := replicate 81 True\<rparr>)) \<and>
   given_mask ((init_app default_state_data)\<lparr>given_mask := replicate 81 True\<rparr>) ! 0 \<and>
   check_selected ((init_app default_state_data)\<lparr>given_mask := replicate 81 True\<rparr>) ''7'' 12
     = Inr (GivenCell, (init_app default_state_data)
              \<lparr>given_mask := replicate 81 True, info_var := ''This is a given cell.''\<rparr>)"
  using check_selected_given_cell
          [of "(init_app default_state_data)\<lparr>given_mask := replicate 81 True\<rparr>" "''7''" 12]
  by (simp add: init_app_def grid_index_def)

subsection \<open>Hints\<close>

text \<open>
  Claim C10. On a board of 81 cells, when every cell is given \<^verbatim>\<open>give_hint\<close> returns at
  once and the state is unchanged, so no penalty is applied. Otherwise it reveals exactly
  the cell drawn from \<open>empties\<close> (the cells whose mask is false, each listed once, so a
  uniform draw of a position is a uniform draw of an unsolved cell) and, in the same call,
  applies \<open>score = max 0 (score - 5)\<close>.
\<close>

theorem give_hint_all_or_nothing:
  assumes "length (given_mask s) = 81" and "length (puzzle s) = 81" and "length (solution s) = 81"
  shows "((\<forall>i<81. given_mask s ! i) \<longrightarrow> give_hint s seed = Inr (NoEmpties, s)) \<and>
         (\<not> (\<forall>i<81. given_mask s ! i) \<longrightarrow>
           (let i = empties s ! (seed mod length (empties s)); s' = after (give_hint s seed)
            in i < 81 \<and> \<not> given_mask s ! i \<and>
               puzzle s' = (puzzle s)[i := solution s ! i] \<and>
               given_mask s' = (given_mask s)[i := True] \<and>
               score s' = max 0 (score s - 5))) \<and>
         distinct (empties s) \<and> set (empties s) = {i. i < 81 \<and> \<not> given_mask s ! i}"
proof (intro conjI impI)
  assume "\<forall>i<81. given_mask s ! i"
  then show "give_hint s seed = Inr (NoEmpties, s)"
    using assms(1) by (simp only: give_hint_none)
next
  assume "\<not> (\<forall>i<81. given_mask s ! i)"
  then have ne: "empties s \<noteq> []"
    by (rule empties_nonempty)
  define i where "i = empties s ! (seed mod length (empties s))"
  note h = give_hint_some [OF assms ne i_def]
  have "puzzle (after (give_hint s seed)) = (puzzle s)[i := solution s ! i]"
    and "given_mask (after (give_hint s seed)) = (given_mask s)[i := True]"
    and "score (after (give_hint s seed)) = max 0 (score s - 5)"
    unfolding h(3) by (simp_all add: win_check_board)
  with h(1,2) show "let i = empties s ! (seed mod length (empties s)); s' = after (give_hint s seed)
          in i < 81 \<and> \<not> given_mask s ! i \<and>
             puzzle s' = (puzzle s)[i := solution s ! i] \<and>
             given_mask s' = (given_mask s)[i := True] \<and>
             score s' = max 0 (score s - 5)"
    unfolding Let_def i_def by blast
next
  show "distinct (empties s)" by (rule empties_distinct)
next
  show "set (empties s) = {i. i < 81 \<and> \<not> given_mask s ! i}" by (rule empties_set)
qed

theorem give_hint_all_or_nothing_witness:
  "length (given_mask ((init_app default_state_data)\<lparr>given_mask := replicate 81 True\<rparr>)) = 81 \<and>
   length (puzzle (init_app default_state_data)) = 81 \<and>
   length (solution (init_app default_state_data)) = 81 \<and>
   \<not> (\<exists>i<81. \<not> given_mask ((init_app default_state_data)\<lparr>given_mask := replicate 81 True\<rparr>) ! i) \<and>
   give_hint ((init_app default_state_data)\<lparr>given_mask := replicate 81 True\<rparr>) 3
     = Inr (NoEmpties, (init_app default_state_data)\<lparr>given_mask := replicate 81 True\<rparr>) \<and>
   \<not> (\<forall>i<81. given_mask ((init_app default_state_data)\<lparr>score := 7\<rparr>) ! i) \<and>
   score (after (give_hint ((init_app default_state_data)\<lparr>score := 7\<rparr>) 3)) = 2"
proof -
  have f: "\<not> (\<forall>i<81. replicate 81 False ! i)"
    by (auto intro: exI [of _ 0])
  show ?thesis
    using give_hint_all_or_nothing
            [of "(init_app default_state_data)\<lparr>given_mask := replicate 81 True\<rparr>" 3]
          give_hint_all_or_nothing [of "(init_app default_state_data)\<lparr>score := 7\<rparr>" 3] f
    by (simp add: init_app_def Let_def)
qed

subsection \<open>The shop\<close>

text \<open>The shop window offers no purchase of a skin that is owned when the window is
  built, and \<^verbatim>\<open>set_skin\<close> checks ownership inside the handler.\<close>

lemma open_shop_no_buy_for_owned:
  "name \<in> set (owned_skins (state_data s)) \<Longrightarrow> BuyButton name price \<notin> set (open_shop s)"
  by (auto simp: open_shop_def Let_def)

lemma set_skin_guard:
  "name \<notin> set (owned_skins (state_data s)) \<Longrightarrow> set_skin s name = Inr (NotOwned, s)"
  by (simp add: set_skin_def)

text \<open>
  Claim C6. A price above the coin balance makes \<^verbatim>\<open>buy_skin\<close> show "Not enough coins"
  and return with the state unchanged (coins and owned skins included). Otherwise it
  takes exactly the price from the coins, in the object and in \<^verbatim>\<open>state_data\<close>, and
  appends the skin to \<^verbatim>\<open>owned_skins\<close>.
\<close>

theorem buy_skin_funds:
  "(coins s < price \<longrightarrow> buy_skin s name price = (NotEnoughCoins, s)) \<and>
   (price \<le> coins s \<longrightarrow>
      fst (buy_skin s name price) = Purchased \<and>
      coins (snd (buy_skin s name price)) = coins s - price \<and>
      sd_coins (state_data (snd (buy_skin s name price))) = coins s - price \<and>
      owned_skins (state_data (snd (buy_skin s name price))) = owned_skins (state_data s) @ [name])"
  by (simp add: buy_skin_def)

theorem buy_skin_funds_witness:
  "coins ((init_app default_state_data)\<lparr>coins := 40\<rparr>) < 60 \<and>
   buy_skin ((init_app default_state_data)\<lparr>coins := 40\<rparr>) ''Ocean'' 60
     = (NotEnoughCoins, (init_app default_state_data)\<lparr>coins := 40\<rparr>) \<and>
   60 \<le> coins ((init_app default_state_data)\<lparr>coins := 100\<rparr>) \<and>
   coins (snd (buy_skin ((init_app default_state_data)\<lparr>coins := 100\<rparr>) ''Ocean'' 60)) = 40 \<and>
   owned_skins (state_data (snd (buy_skin ((init_app default_state_data)\<lparr>coins := 100\<rparr>) ''Ocean'' 60)))
     = [''Classic'', ''Ocean'']"
  using buy_skin_funds [of "(init_app default_state_data)\<lparr>coins := 40\<rparr>" 60 "''Ocean''"]
        buy_skin_funds [of "(init_app default_state_data)\<lparr>coins := 100\<rparr>" 60 "''Ocean''"]
  by (simp add: init_app_def default_state_data_def)

text \<open>
  Claim C1 says a purchase of an owned item is rejected without any change. The handler
  \<^verbatim>\<open>buy_skin\<close> has no ownership test. A second shop window, built while "Ocean" was
  not owned, keeps its Buy button after "Ocean" has been bought from the first window;
  using it takes the price again and appends a second "Ocean" entry.
\<close>

theorem buy_skin_owned_again:
  "BuyButton ''Ocean'' 60 \<in> set (open_shop (init_app (default_state_data\<lparr>sd_coins := 120\<rparr>))) \<and>
   buy_skin (snd (buy_skin (init_app (default_state_data\<lparr>sd_coins := 120\<rparr>)) ''Ocean'' 60)) ''Ocean'' 60
     = (Purchased,
        (init_app (default_state_data\<lparr>sd_coins := 120\<rparr>))
          \<lparr>coins := 0,
           state_data := \<lparr>sd_coins = 0, unlocked = [''Easy''],
                          owned_skins = [''Classic'', ''Ocean'', ''Ocean''],
                          active_skin = ''Classic''\<rparr>\<rparr>) \<and>
   ''Ocean'' \<in> set (owned_skins (state_data
       (snd (buy_skin (init_app (default_state_data\<lparr>sd_coins := 120\<rparr>)) ''Ocean'' 60))))"
  by (simp add: buy_skin_def open_shop_def init_app_def default_state_data_def
        SKINS_keys_def SKIN_PRICES_def)

subsection \<open>Completion bonus and unlocking\<close>

lemma on_win_tier:
  assumes "current_diff s = t" and "(t, b, nxt) \<in> {(''Easy'', 20, Some ''Medium''), (''Medium'', 40, Some ''Hard''), (''Hard'', 60, None)}"
  shows "on_win s =
           Inr ((b, case nxt of None \<Rightarrow> None
                     | Some n \<Rightarrow> if n \<in> set (unlocked (state_data s)) then None else Some n),
                s\<lparr>timer_running := False, coins := coins s + b,
                  state_data := (state_data s)
                    \<lparr>sd_coins := coins s + b,
                     unlocked := (case nxt of None \<Rightarrow> unlocked (state_data s)
                                  | Some n \<Rightarrow> if n \<in> set (unlocked (state_data s))
                                              then unlocked (state_data s)
                                              else unlocked (state_data s) @ [n])\<rparr>\<rparr>)"
  using assms
  by (auto simp: on_win_def bonus_table_def tier_order_def Let_def)


text \<open>
  \<^verbatim>\<open>on_win\<close> takes the tier from \<^verbatim>\<open>current_diff\<close>. For that tier it adds the bonus to the
  coins (20 for Easy, 40 for Medium, 60 for Hard), appends the successor tier to
  \<^verbatim>\<open>unlocked\<close> when there is one and it is not there yet, and a second completion pays
  the same bonus again.
\<close>

theorem on_win_bonus_and_unlock:
  assumes "current_diff s = t"
    and "(t, b, nxt) \<in> {(''Easy'', 20, Some ''Medium''), (''Medium'', 40, Some ''Hard''), (''Hard'', 60, None)}"
  shows "(\<exists>u s'. on_win s = Inr ((b, u), s') \<and>
            coins s' = coins s + b \<and>
            sd_coins (state_data s') = coins s + b \<and>
            unlocked (state_data s') =
              (case nxt of
                 None \<Rightarrow> unlocked (state_data s)
               | Some n \<Rightarrow> if n \<in> set (unlocked (state_data s))
                           then unlocked (state_data s)
                           else unlocked (state_data s) @ [n]) \<and>
            u = (case nxt of
                   None \<Rightarrow> None
                 | Some n \<Rightarrow> if n \<in> set (unlocked (state_data s)) then None else Some n)) \<and>
         coins (after (on_win (after (on_win s)))) = coins s + 2 * b"
proof -
  note w = on_win_tier [OF assms]
  have cd: "current_diff (after (on_win s)) = t"
    using assms(1) by (simp add: on_win_board)
  note w2 = on_win_tier [OF cd assms(2)]
  have "coins (after (on_win s)) = coins s + b"
    unfolding w by simp
  then have "coins (after (on_win (after (on_win s)))) = coins s + 2 * b"
    unfolding w2 by simp
  then show ?thesis
    unfolding w by simp
qed

theorem on_win_bonus_and_unlock_witness:
  "current_diff (init_app default_state_data) = ''Easy'' \<and>
   (''Easy'', 20, Some ''Medium'')
     \<in> {(''Easy'', 20 :: int, Some ''Medium''), (''Medium'', 40, Some ''Hard''), (''Hard'', 60, None)} \<and>
   coins (after (on_win (after (on_win (init_app default_state_data))))) = 40"
  using on_win_bonus_and_unlock [of "init_app default_state_data" "''Easy''" 20 "Some ''Medium''"]
  by (simp add: init_app_def default_state_data_def)

subsection \<open>Loading the saved state\<close>


lemma load_state_not_a_dict:
  "load_state (Parsed JNull) = DEFAULT_SAVE"
  "load_state (Parsed (JBool b)) = DEFAULT_SAVE"
  "load_state (Parsed (JInt n)) = DEFAULT_SAVE"
  "load_state (Parsed (JFloat x)) = DEFAULT_SAVE"
  "load_state (Parsed (JArr [])) = DEFAULT_SAVE"
  "load_state (Parsed (JStr ''coins'')) = DEFAULT_SAVE"
  by (simp_all add: load_state_def DEFAULT_SAVE_items_def)



subsection \<open>Scoring a correct entry\<close>

lemma int_of_float_floor: "0 \<le> x \<Longrightarrow> int_of_float x = \<lfloor>x\<rfloor>"
  by (simp add: int_of_float_def)

lemma check_selected_correct:
  assumes idx: "idx = grid_index (fst (selected s)) (snd (selected s))"
    and rng: "idx < length (given_mask s)" "idx < length (solution s)" "idx < length (puzzle s)"
    and fr: "\<not> given_mask s ! idx"
    and dig: "isdigit (strip entry)" "py_int (strip entry) = Inr (solution s ! idx)"
    and prev: "prev = (case last_correct_time s of None \<Rightarrow> now | Some t \<Rightarrow> if t = 0 then now else t)"
    and pts: "pts = max 1 (20 - int_of_float (now - prev))"
  shows "check_selected s entry now =
           win_check Correct
             (s\<lparr>last_correct_time := Some now, score := score s + pts,
                coins := coins s + pts div 5,
                state_data := (state_data s)\<lparr>sd_coins := coins s + pts div 5\<rparr>,
                puzzle := (puzzle s)[idx := solution s ! idx],
                given_mask := (given_mask s)[idx := True]\<rparr>)"
proof -
  have ne: "strip entry \<noteq> []"
    using dig(1) by (simp add: isdigit_def)
  show ?thesis
    unfolding check_selected_def idx [symmetric] Let_def prev [symmetric] pts [symmetric]
    using rng fr dig ne by simp
qed


lemma win_check_coins: "coins (after (win_check x s)) = coins s + bonus_due s"
  by (auto simp: win_check_def bonus_due_def on_win_def Let_def
           split: sum.splits bool.splits option.splits)

lemma bonus_due_cong:
  "puzzle s' = puzzle s \<Longrightarrow> solution s' = solution s \<Longrightarrow> current_diff s' = current_diff s
   \<Longrightarrow> bonus_due s' = bonus_due s"
  unfolding bonus_due_def is_completed_def by (simp split: sum.split bool.split)

text \<open>The award of a correct entry with the gap the code computes: \<open>now - last_correct_time\<close>
  for a non-zero timestamp, 0 when the timestamp is unset or 0.0
  (\<^verbatim>\<open>self.last_correct_time or now\<close>).\<close>

lemma check_selected_award_or_now:
  assumes "idx = grid_index (fst (selected s)) (snd (selected s))"
    and "idx < length (given_mask s)" and "idx < length (solution s)" and "idx < length (puzzle s)"
    and "\<not> given_mask s ! idx"
    and "isdigit (strip entry)" and "py_int (strip entry) = Inr (solution s ! idx)"
    and "delta = (case last_correct_time s of
                    None \<Rightarrow> 0
                  | Some t0 \<Rightarrow> if t0 = 0 then 0 else now - t0)"
    and "0 \<le> delta"
    and "pts = max 1 (20 - \<lfloor>delta\<rfloor>)"
  shows "check_selected s entry now =
           win_check Correct
             (s\<lparr>last_correct_time := Some now, score := score s + pts,
                coins := coins s + pts div 5,
                state_data := (state_data s)\<lparr>sd_coins := coins s + pts div 5\<rparr>,
                puzzle := (puzzle s)[idx := solution s ! idx],
                given_mask := (given_mask s)[idx := True]\<rparr>)"
proof -
  define prev where
    "prev = (case last_correct_time s of None \<Rightarrow> now | Some t \<Rightarrow> if t = 0 then now else t)"
  have d: "now - prev = delta"
    unfolding prev_def assms(8) by (simp split: option.split)
  have p: "pts = max 1 (20 - int_of_float (now - prev))"
    unfolding d assms(10) using assms(9) by (simp add: int_of_float_floor)
  show ?thesis
    by (rule check_selected_correct [OF assms(1-7) prev_def p])
qed

text \<open>The timestamp is written from the clock only: by \<^verbatim>\<open>new_game\<close> and by a correct
  check. With clock readings other than 0.0 it is set and non-zero in every state of a
  game.\<close>

lemma new_game_last_correct_time:
  "new_game s0 t seed now1 now2 = Inr (Started, s) \<Longrightarrow> last_correct_time s = Some now1"
  unfolding new_game_def
  by (auto simp: Let_def split: option.splits sum.splits prod.splits if_splits)

lemma check_selected_last_correct_time:
  "last_correct_time (after (check_selected s entry now)) = last_correct_time s \<or>
   last_correct_time (after (check_selected s entry now)) = Some now"
  unfolding check_selected_def Let_def
  by (simp add: win_check_board split: sum.split)

lemma give_hint_last_correct_time:
  "last_correct_time (after (give_hint s seed)) = last_correct_time s"
  unfolding give_hint_def
  by (simp add: win_check_board split: sum.split)

lemma run_last_correct_time:
  assumes "last_correct_time s = Some t" and "t \<noteq> 0"
    and "\<forall>ev\<in>set evs. \<forall>entry now. ev = Check entry now \<longrightarrow> now \<noteq> 0"
  shows "\<exists>t'. last_correct_time (run s evs) = Some t' \<and> t' \<noteq> 0"
  using assms
proof (induction evs arbitrary: s t)
  case Nil
  then show ?case by simp
next
  case (Cons ev evs)
  have "\<exists>t1. last_correct_time (step s ev) = Some t1 \<and> t1 \<noteq> 0"
  proof (cases ev)
    case (Select r c)
    with Cons.prems(1,2) show ?thesis by (simp add: on_select_def)
  next
    case (Check entry now)
    with Cons.prems(3) have "now \<noteq> 0" by simp
    with Cons.prems(1,2) check_selected_last_correct_time [of s entry now] Check
    show ?thesis by auto
  next
    case Clear
    with Cons.prems(1,2) show ?thesis by (simp add: clear_selected_def Let_def)
  next
    case (Hint seed)
    with Cons.prems(1,2) show ?thesis by (simp add: give_hint_last_correct_time)
  qed
  then obtain t1 where "last_correct_time (step s ev) = Some t1" and "t1 \<noteq> 0"
    by blast
  from Cons.IH [OF this] Cons.prems(3) show ?case by simp
qed

text \<open>
  Claim C2. For a correct entry (the selected cell is not given, the stripped text is a
  digit string whose value is the solution digit), with \<^verbatim>\<open>last_correct_time\<close> a non-zero
  timestamp \<open>t0\<close> and \<open>delta = now - t0 \<ge> 0\<close>: the points are \<open>max 1 (20 - floor delta)\<close>,
  the entry earns \<open>points div 5\<close> coins, the score grows by the points and
  \<^verbatim>\<open>last_correct_time\<close> becomes \<open>now\<close>, all before the completion check runs. After the
  call the coins are those plus the completion bonus, which is 0 unless this entry
  completes the board.
\<close>

theorem check_selected_award:
  assumes "idx = grid_index (fst (selected s)) (snd (selected s))"
    and "idx < length (given_mask s)" and "idx < length (solution s)" and "idx < length (puzzle s)"
    and "\<not> given_mask s ! idx"
    and "isdigit (strip entry)" and "py_int (strip entry) = Inr (solution s ! idx)"
    and "last_correct_time s = Some t0" and "t0 \<noteq> 0"
    and "delta = now - t0" and "0 \<le> delta"
    and "pts = max 1 (20 - \<lfloor>delta\<rfloor>)"
    and "s' = after (check_selected s entry now)"
  shows "check_selected s entry now =
           win_check Correct
             (s\<lparr>last_correct_time := Some now, score := score s + pts,
                coins := coins s + pts div 5,
                state_data := (state_data s)\<lparr>sd_coins := coins s + pts div 5\<rparr>,
                puzzle := (puzzle s)[idx := solution s ! idx],
                given_mask := (given_mask s)[idx := True]\<rparr>) \<and>
         score s' = score s + pts \<and>
         last_correct_time s' = Some now \<and>
         coins s' = coins s + pts div 5 + bonus_due s' \<and>
         puzzle s' = (puzzle s)[idx := solution s ! idx] \<and>
         given_mask s' = (given_mask s)[idx := True]"
proof -
  have d: "delta = (case last_correct_time s of
                      None \<Rightarrow> 0
                    | Some t0 \<Rightarrow> if t0 = 0 then 0 else now - t0)"
    using assms(8,9,10) by simp
  note c = check_selected_award_or_now [OF assms(1-7) d assms(11,12)]
  have b: "bonus_due s' = bonus_due (s\<lparr>last_correct_time := Some now, score := score s + pts,
                coins := coins s + pts div 5,
                state_data := (state_data s)\<lparr>sd_coins := coins s + pts div 5\<rparr>,
                puzzle := (puzzle s)[idx := solution s ! idx],
                given_mask := (given_mask s)[idx := True]\<rparr>)"
    unfolding assms(13) c by (rule bonus_due_cong) (simp_all add: win_check_board)
  have "score s' = score s + pts \<and>
         last_correct_time s' = Some now \<and>
         coins s' = coins s + pts div 5 + bonus_due s' \<and>
         puzzle s' = (puzzle s)[idx := solution s ! idx] \<and>
         given_mask s' = (given_mask s)[idx := True]"
    unfolding b unfolding assms(13) c by (simp add: win_check_board win_check_coins)
  with c show ?thesis by blast
qed

theorem check_selected_award_witness:
  "(0::nat) = grid_index (fst (selected ((init_app default_state_data)
        \<lparr>solution := replicate 81 5, last_correct_time := Some 3\<rparr>)))
      (snd (selected ((init_app default_state_data)
        \<lparr>solution := replicate 81 5, last_correct_time := Some 3\<rparr>))) \<and>
   isdigit (strip ''5'') \<and> py_int (strip ''5'') = Inr 5 \<and>
   last_correct_time ((init_app default_state_data)
        \<lparr>solution := replicate 81 5, last_correct_time := Some 3\<rparr>) = Some 3 \<and>
   (3::real) \<noteq> 0 \<and> (0::real) \<le> 21 / 2 - 3 \<and>
   (13::int) = max 1 (20 - \<lfloor>(21::real) / 2 - 3\<rfloor>) \<and>
   score (after (check_selected ((init_app default_state_data)
        \<lparr>solution := replicate 81 5, last_correct_time := Some 3\<rparr>) ''5'' (21 / 2))) = 13 \<and>
   coins (after (check_selected ((init_app default_state_data)
        \<lparr>solution := replicate 81 5, last_correct_time := Some 3\<rparr>) ''5'' (21 / 2)))
     = 2 + bonus_due (after (check_selected ((init_app default_state_data)
        \<lparr>solution := replicate 81 5, last_correct_time := Some 3\<rparr>) ''5'' (21 / 2))) \<and>
   last_correct_time (after (check_selected ((init_app default_state_data)
        \<lparr>solution := replicate 81 5, last_correct_time := Some 3\<rparr>) ''5'' (21 / 2))) = Some (21 / 2)"
proof -
  let ?s = "(init_app default_state_data)\<lparr>solution := replicate 81 5, last_correct_time := Some 3\<rparr>"
  let ?s' = "after (check_selected ?s ''5'' (21 / 2))"
  show ?thesis
    using check_selected_award [of 0 ?s "''5''" 3 "21 / 2 - 3" "21 / 2" 13 ?s', THEN conjunct2]
    by (simp add: init_app_def default_state_data_def grid_index_def strip_def isdigit_def
          py_int_def is_space_def digit_val_def)
qed

subsection \<open>The score never goes negative\<close>

lemma check_selected_score:
  "score (after (check_selected s entry now)) = score s \<or>
   score (after (check_selected s entry now)) = max 0 (score s - 1) \<or>
   (\<exists>pts\<ge>1. score (after (check_selected s entry now)) = score s + pts)"
  unfolding check_selected_def Let_def
  by (simp add: win_check_board split: sum.split)

lemma check_selected_wrong:
  "check_selected s entry now = Inr (Wrong, s') \<Longrightarrow> score s' = max 0 (score s - 1)"
  unfolding check_selected_def Let_def win_check_def
  by (auto split: if_splits sum.splits bool.splits prod.splits)

lemma give_hint_score:
  "after (give_hint s seed) = s \<or> score (after (give_hint s seed)) = max 0 (score s - 5)"
  unfolding give_hint_def
  by (simp add: win_check_board split: sum.split)

lemma clear_selected_after: "after (clear_selected s) = s"
  by (simp add: clear_selected_def Let_def)

lemma step_score_nonneg: "0 \<le> score s \<Longrightarrow> 0 \<le> score (step s ev)"
proof (cases ev)
  case (Select r c)
  then show "0 \<le> score s \<Longrightarrow> 0 \<le> score (step s ev)" by (simp add: on_select_def)
next
  case (Check entry now)
  then show "0 \<le> score s \<Longrightarrow> 0 \<le> score (step s ev)"
    using check_selected_score [of s entry now] by auto
next
  case Clear
  then show "0 \<le> score s \<Longrightarrow> 0 \<le> score (step s ev)" by (simp add: clear_selected_after)
next
  case (Hint seed)
  then show "0 \<le> score s \<Longrightarrow> 0 \<le> score (step s ev)"
    using give_hint_score [of s seed] by auto
qed

lemma run_score_nonneg: "0 \<le> score s \<Longrightarrow> 0 \<le> score (run s evs)"
  by (induction evs arbitrary: s) (simp_all add: step_score_nonneg)

lemma step_penalty_zero: "score s = 0 \<Longrightarrow> is_penalty s ev \<Longrightarrow> score (step s ev) = 0"
proof (cases ev)
  case (Check entry now)
  assume z: "score s = 0" and p: "is_penalty s ev"
  from p Check obtain s' where r: "check_selected s entry now = Inr (Wrong, s')"
    by (auto split: sum.splits prod.splits reply.splits)
  from check_selected_wrong [OF r] z show "score (step s ev) = 0"
    by (simp add: Check r)
next
  case (Hint seed)
  assume z: "score s = 0"
  then show "score (step s ev) = 0"
    using give_hint_score [of s seed] Hint by auto
qed simp_all

lemma run_penalties_zero: "score s = 0 \<Longrightarrow> penalties_only s evs \<Longrightarrow> score (run s evs) = 0"
  by (induction evs arbitrary: s) (simp_all add: step_penalty_zero)

lemma check_selected_wrong_guess:
  assumes "idx = grid_index (fst (selected s)) (snd (selected s))"
    and "idx < length (given_mask s)" and "idx < length (solution s)"
    and "\<not> given_mask s ! idx"
    and "isdigit (strip entry)" and "py_int (strip entry) = Inr g"
    and "g \<noteq> solution s ! idx"
  shows "check_selected s entry now =
           Inr (Wrong, s\<lparr>score := max 0 (score s - 1), info_var := ''Wrong. Try again.''\<rparr>)"
proof -
  have ne: "strip entry \<noteq> []"
    using assms(5) by (simp add: isdigit_def)
  show ?thesis
    unfolding check_selected_def assms(1) [symmetric] Let_def
    using assms(2-7) ne by simp
qed

lemma give_hint_penalty:
  assumes "length (given_mask s) = 81" and "length (puzzle s) = 81"
    and "length (solution s) = 81" and "\<exists>i<81. \<not> given_mask s ! i"
  shows "score (after (give_hint s seed)) = max 0 (score s - 5)"
proof -
  from assms(4) have "\<not> (\<forall>i<81. given_mask s ! i)" by blast
  then have ne: "empties s \<noteq> []" by (rule empties_nonempty)
  note h = give_hint_some [OF assms(1-3) ne refl, of seed]
  show ?thesis
    unfolding h(3) by (simp add: win_check_board)
qed

text \<open>
  Claim C7. From a non-negative score, the score is non-negative after every sequence of
  callbacks. A digit entered in a cell that is not given and differs from the solution
  digit is answered "Wrong" and sets \<open>score = max 0 (score - 1)\<close>. A hint on a board of
  81 cells with an unsolved cell sets \<open>score = max 0 (score - 5)\<close>; in every other case
  a hint leaves the state as it was. A sequence of wrong checks and hints from score 0
  ends at score 0.
\<close>

theorem score_never_negative:
  "(0 \<le> score s \<longrightarrow> 0 \<le> score (run s evs)) \<and>
   (grid_index (fst (selected s)) (snd (selected s)) < length (given_mask s) \<and>
    grid_index (fst (selected s)) (snd (selected s)) < length (solution s) \<and>
    \<not> given_mask s ! grid_index (fst (selected s)) (snd (selected s)) \<and>
    isdigit (strip entry) \<and> py_int (strip entry) = Inr g \<and>
    g \<noteq> solution s ! grid_index (fst (selected s)) (snd (selected s))
    \<longrightarrow> check_selected s entry now =
          Inr (Wrong, s\<lparr>score := max 0 (score s - 1), info_var := ''Wrong. Try again.''\<rparr>)) \<and>
   (check_selected s entry now = Inr (Wrong, s') \<longrightarrow> score s' = max 0 (score s - 1)) \<and>
   (length (given_mask s) = 81 \<and> length (puzzle s) = 81 \<and> length (solution s) = 81 \<and>
    (\<exists>i<81. \<not> given_mask s ! i)
    \<longrightarrow> score (after (give_hint s seed)) = max 0 (score s - 5)) \<and>
   (after (give_hint s seed) = s \<or> score (after (give_hint s seed)) = max 0 (score s - 5)) \<and>
   (score s = 0 \<and> penalties_only s evs \<longrightarrow> score (run s evs) = 0)"
  using run_score_nonneg [of s evs] check_selected_wrong [of s entry now s']
    check_selected_wrong_guess [OF refl, of s entry g now]
    give_hint_penalty [of s seed]
    give_hint_score [of s seed] run_penalties_zero [of s evs]
  by blast

theorem score_never_negative_witness:
  "0 \<le> score ((init_app default_state_data)\<lparr>solution := replicate 81 5, score := 7\<rparr>) \<and>
   0 \<le> score (run ((init_app default_state_data)\<lparr>solution := replicate 81 5, score := 7\<rparr>)
           [Check ''4'' 1, Hint 0, Hint 3, Select 0 1, Check ''9'' 2]) \<and>
   isdigit (strip ''4'') \<and> py_int (strip ''4'') = Inr 4 \<and>
   check_selected ((init_app default_state_data)\<lparr>solution := replicate 81 5, score := 7\<rparr>) ''4'' 1
     = Inr (Wrong, (init_app default_state_data)
              \<lparr>solution := replicate 81 5, score := 6, info_var := ''Wrong. Try again.''\<rparr>) \<and>
   length (given_mask ((init_app default_state_data)\<lparr>solution := replicate 81 5, score := 7\<rparr>)) = 81 \<and>
   (\<exists>i<81. \<not> given_mask ((init_app default_state_data)\<lparr>solution := replicate 81 5, score := 7\<rparr>) ! i) \<and>
   score (after (give_hint ((init_app default_state_data)\<lparr>solution := replicate 81 5, score := 7\<rparr>) 3))
     = 2 \<and>
   score ((init_app default_state_data)\<lparr>solution := replicate 81 5\<rparr>) = 0 \<and>
   penalties_only ((init_app default_state_data)\<lparr>solution := replicate 81 5\<rparr>)
     [Check ''4'' 1, Check ''3'' 2, Hint 0] \<and>
   score (run ((init_app default_state_data)\<lparr>solution := replicate 81 5\<rparr>)
     [Check ''4'' 1, Check ''3'' 2, Hint 0]) = 0"
proof -
  let ?s = "(init_app default_state_data)\<lparr>solution := replicate 81 5\<rparr>"
  let ?p = "(init_app default_state_data)\<lparr>solution := replicate 81 5, score := 7\<rparr>"
  let ?w = "(init_app default_state_data)
              \<lparr>solution := replicate 81 5, score := 0, info_var := ''Wrong. Try again.''\<rparr>"
  have c1: "check_selected ?s ''4'' 1 = Inr (Wrong, ?w)"
    by (simp add: check_selected_def init_app_def grid_index_def strip_def isdigit_def
          py_int_def is_space_def digit_val_def)
  have c2: "check_selected ?w ''3'' 2 = Inr (Wrong, ?w)"
    by (simp add: check_selected_def init_app_def grid_index_def strip_def isdigit_def
          py_int_def is_space_def digit_val_def)
  have p: "penalties_only ?s [Check ''4'' 1, Check ''3'' 2, Hint 0]"
    by (simp add: c1 c2)
  have z: "score ?s = 0"
    by (simp add: init_app_def)
  have e: "\<exists>i<81. \<not> given_mask ?p ! i"
    by (rule exI [of _ 0]) (simp add: init_app_def)
  have d: "isdigit (strip ''4'')" "py_int (strip ''4'') = Inr 4"
    by (simp_all add: strip_def isdigit_def py_int_def is_space_def digit_val_def)
  have q: "0 \<le> score ?p"
    "grid_index (fst (selected ?p)) (snd (selected ?p)) < length (given_mask ?p)"
    "grid_index (fst (selected ?p)) (snd (selected ?p)) < length (solution ?p)"
    "\<not> given_mask ?p ! grid_index (fst (selected ?p)) (snd (selected ?p))"
    "4 \<noteq> solution ?p ! grid_index (fst (selected ?p)) (snd (selected ?p))"
    "length (given_mask ?p) = 81" "length (puzzle ?p) = 81" "length (solution ?p) = 81"
    by (simp_all add: init_app_def grid_index_def)
  note th = score_never_negative
            [of ?p "[Check ''4'' 1, Hint 0, Hint 3, Select 0 1, Check ''9'' 2]" "''4''" 4 1 ?w 3]
  have a: "0 \<le> score (run ?p [Check ''4'' 1, Hint 0, Hint 3, Select 0 1, Check ''9'' 2])"
    using th q(1) by blast
  have b0: "check_selected ?p ''4'' 1
       = Inr (Wrong, ?p\<lparr>score := max 0 (score ?p - 1), info_var := ''Wrong. Try again.''\<rparr>)"
    using th q(2-5) d by blast
  have h0: "score (after (give_hint ?p 3)) = max 0 (score ?p - 5)"
    using th q(6-8) e by blast
  have b: "check_selected ?p ''4'' 1
       = Inr (Wrong, (init_app default_state_data)
              \<lparr>solution := replicate 81 5, score := 6, info_var := ''Wrong. Try again.''\<rparr>)"
    unfolding b0 by (simp add: init_app_def)
  have h: "score (after (give_hint ?p 3)) = 2"
    unfolding h0 by (simp add: init_app_def)
  have r: "score (run ?s [Check ''4'' 1, Check ''3'' 2, Hint 0]) = 0"
    using score_never_negative [of ?s "[Check ''4'' 1, Check ''3'' 2, Hint 0]" "''4''" 4 1 ?w 0]
      p z by blast
  have l: "length (given_mask ?p) = 81" and n: "0 \<le> score ?p"
    by (simp_all add: init_app_def)
  from n a d b l e h z p r show ?thesis
    by (intro conjI)
qed


subsection \<open>Selecting a tier\<close>

lemma unlocked_ok_cases:
  assumes "unlocked_ok u"
  shows "u = [''Easy''] \<or> u = [''Easy'', ''Medium''] \<or> u = [''Easy'', ''Medium'', ''Hard'']"
proof -
  from assms have ne: "u \<noteq> []" and tk: "take (length u) [''Easy'', ''Medium'', ''Hard''] = u"
    by (simp_all add: unlocked_ok_def tier_order_def)
  consider "length u = 0" | "length u = 1" | "length u = 2" | "3 \<le> length u"
    by linarith
  then show ?thesis
  proof cases
    case 1
    with ne show ?thesis by simp
  next
    case 2
    with tk show ?thesis by (metis One_nat_def take0 take_Suc_Cons)
  next
    case 3
    have "take 2 [''Easy'', ''Medium'', ''Hard''] = [''Easy'', ''Medium'']"
      by (simp add: numeral_2_eq_2)
    with tk 3 show ?thesis by simp
  next
    case 4
    then have "take (length u) [''Easy'', ''Medium'', ''Hard''] = [''Easy'', ''Medium'', ''Hard'']"
      by simp
    with tk show ?thesis by simp
  qed
qed

lemma unlocked_ok_last:
  assumes "unlocked_ok u"
  shows "u \<noteq> []" and "last u \<in> set u"
    and "\<forall>t\<in>set u. \<exists>i j. list_index tier_order t = Some i \<and>
           list_index tier_order (last u) = Some j \<and> i \<le> j"
  using unlocked_ok_cases [OF assms]
  by (auto simp: tier_order_def)

lemma parse_grid_digits:
  "list_all (\<lambda>ch. digit_val ch \<noteq> None) str \<Longrightarrow>
   \<exists>p. parse_grid str = Inr p \<and> length p = length str"
  by (induction str) auto

lemma puzzles_wellformed:
  assumes "t \<in> set tier_order"
  shows "\<exists>recs. map_of PUZZLES t = Some recs \<and> recs \<noteq> [] \<and>
           (\<forall>r\<in>set recs. isdigit (fst r) \<and> isdigit (snd r) \<and>
                          length (fst r) = 81 \<and> length (snd r) = 81)"
proof -
  from assms consider "t = ''Easy''" | "t = ''Medium''" | "t = ''Hard''"
    by (auto simp: tier_order_def)
  then show ?thesis
    by cases (simp_all add: PUZZLES_def isdigit_def digit_val_def)
qed


lemma new_game_started:
  assumes "t \<in> set tier_order"
  shows "\<exists>recs r p q.
           map_of PUZZLES t = Some recs \<and> r \<in> set recs \<and>
           parse_grid (fst r) = Inr p \<and> parse_grid (snd r) = Inr q \<and>
           length p = 81 \<and> length q = 81 \<and>
           new_game s t seed now1 now2 =
             Inr (Started,
                  s\<lparr>puzzle := p, solution := q, given_mask := map (\<lambda>v. v \<noteq> 0) p, score := 0,
                    info_var := ''Fill cells. Faster correct checks = more points!'',
                    selected := (0, 0), last_correct_time := Some now1,
                    start_time := Some now2, timer_running := True\<rparr>)"
proof -
  from puzzles_wellformed [OF assms] obtain recs where
    m: "map_of PUZZLES t = Some recs" and ne: "recs \<noteq> []"
    and ok: "\<forall>r\<in>set recs. isdigit (fst r) \<and> isdigit (snd r) \<and>
                          length (fst r) = 81 \<and> length (snd r) = 81"
    by blast
  define r where "r = recs ! (seed mod length recs)"
  have rc: "random_choice recs seed = Inr r"
    unfolding r_def by (rule random_choice_nth [OF ne])
  have mem: "r \<in> set recs"
    unfolding r_def using ne by simp
  with ok have d: "isdigit (fst r)" "isdigit (snd r)" "length (fst r) = 81" "length (snd r) = 81"
    by blast+
  from d(1) obtain p where p: "parse_grid (fst r) = Inr p" "length p = length (fst r)"
    using parse_grid_digits [of "fst r"] by (auto simp: isdigit_def)
  from d(2) obtain q where q: "parse_grid (snd r) = Inr q" "length q = length (snd r)"
    using parse_grid_digits [of "snd r"] by (auto simp: isdigit_def)
  have "new_game s t seed now1 now2 =
             Inr (Started,
                  s\<lparr>puzzle := p, solution := q, given_mask := map (\<lambda>v. v \<noteq> 0) p, score := 0,
                    info_var := ''Fill cells. Faster correct checks = more points!'',
                    selected := (0, 0), last_correct_time := Some now1,
                    start_time := Some now2, timer_running := True\<rparr>)"
    unfolding new_game_def using m rc p q d(3)
    by (simp add: case_prod_beta Let_def)
  with m mem p q d show ?thesis
    by (intro exI [of _ recs] exI [of _ r] exI [of _ p] exI [of _ q]) simp
qed

text \<open>
  Claim C9. Let \<^verbatim>\<open>unlocked\<close> be a non-empty prefix of Easy, Medium, Hard. When the tier
  selected in the combobox (\<^verbatim>\<open>current_diff\<close>) is not unlocked, \<^verbatim>\<open>on_diff_change\<close> starts
  no game: it only resets \<^verbatim>\<open>current_diff\<close> to the last unlocked tier, which is the
  highest unlocked tier in the tier order. When the selected tier is unlocked, a new game
  starts on a puzzle registered for that tier.
\<close>

theorem on_diff_change_locked_or_started:
  assumes "unlocked_ok (unlocked (state_data s))"
  shows "(current_diff s \<notin> set (unlocked (state_data s)) \<longrightarrow>
            on_diff_change s seed now1 now2 =
              Inr (Locked (last (unlocked (state_data s))),
                   s\<lparr>current_diff := last (unlocked (state_data s))\<rparr>) \<and>
            last (unlocked (state_data s)) \<in> set (unlocked (state_data s)) \<and>
            (\<forall>t\<in>set (unlocked (state_data s)).
               \<exists>i j. list_index tier_order t = Some i \<and>
                     list_index tier_order (last (unlocked (state_data s))) = Some j \<and> i \<le> j)) \<and>
         (current_diff s \<in> set (unlocked (state_data s)) \<longrightarrow>
            (\<exists>recs r p q.
               map_of PUZZLES (current_diff s) = Some recs \<and> r \<in> set recs \<and>
               parse_grid (fst r) = Inr p \<and> parse_grid (snd r) = Inr q \<and>
               on_diff_change s seed now1 now2 =
                 Inr (Started,
                      s\<lparr>puzzle := p, solution := q, given_mask := map (\<lambda>v. v \<noteq> 0) p,
                        score := 0,
                        info_var := ''Fill cells. Faster correct checks = more points!'',
                        selected := (0, 0), last_correct_time := Some now1,
                        start_time := Some now2, timer_running := True\<rparr>)))"
proof (intro conjI impI)
  assume "current_diff s \<notin> set (unlocked (state_data s))"
  then show "on_diff_change s seed now1 now2 =
              Inr (Locked (last (unlocked (state_data s))),
                   s\<lparr>current_diff := last (unlocked (state_data s))\<rparr>)"
    using unlocked_ok_last(1) [OF assms] by (simp add: on_diff_change_def Let_def)
next
  show "last (unlocked (state_data s)) \<in> set (unlocked (state_data s))"
    by (rule unlocked_ok_last(2) [OF assms])
next
  show "\<forall>t\<in>set (unlocked (state_data s)).
               \<exists>i j. list_index tier_order t = Some i \<and>
                     list_index tier_order (last (unlocked (state_data s))) = Some j \<and> i \<le> j"
    by (rule unlocked_ok_last(3) [OF assms])
next
  assume u: "current_diff s \<in> set (unlocked (state_data s))"
  then have t: "current_diff s \<in> set tier_order"
    using unlocked_ok_cases [OF assms] by (auto simp: tier_order_def)
  have "on_diff_change s seed now1 now2 = new_game s (current_diff s) seed now1 now2"
    using u by (simp add: on_diff_change_def Let_def)
  with new_game_started [OF t, of s seed now1 now2]
  show "\<exists>recs r p q.
               map_of PUZZLES (current_diff s) = Some recs \<and> r \<in> set recs \<and>
               parse_grid (fst r) = Inr p \<and> parse_grid (snd r) = Inr q \<and>
               on_diff_change s seed now1 now2 =
                 Inr (Started,
                      s\<lparr>puzzle := p, solution := q, given_mask := map (\<lambda>v. v \<noteq> 0) p,
                        score := 0,
                        info_var := ''Fill cells. Faster correct checks = more points!'',
                        selected := (0, 0), last_correct_time := Some now1,
                        start_time := Some now2, timer_running := True\<rparr>)"
    by (metis (no_types, lifting))
qed

theorem on_diff_change_locked_or_started_witness:
  "unlocked_ok (unlocked (state_data ((init_app (default_state_data\<lparr>unlocked := [''Easy'', ''Medium'']\<rparr>))
      \<lparr>current_diff := ''Hard''\<rparr>))) \<and>
   current_diff ((init_app (default_state_data\<lparr>unlocked := [''Easy'', ''Medium'']\<rparr>))
      \<lparr>current_diff := ''Hard''\<rparr>)
     \<notin> set (unlocked (state_data ((init_app (default_state_data\<lparr>unlocked := [''Easy'', ''Medium'']\<rparr>))
      \<lparr>current_diff := ''Hard''\<rparr>))) \<and>
   on_diff_change ((init_app (default_state_data\<lparr>unlocked := [''Easy'', ''Medium'']\<rparr>))
      \<lparr>current_diff := ''Hard''\<rparr>) 0 1 2
     = Inr (Locked ''Medium'',
            (init_app (default_state_data\<lparr>unlocked := [''Easy'', ''Medium'']\<rparr>))
              \<lparr>current_diff := ''Medium''\<rparr>) \<and>
   current_diff (init_app default_state_data) \<in> set (unlocked (state_data (init_app default_state_data))) \<and>
   (\<exists>s'. on_diff_change (init_app default_state_data) 0 1 2 = Inr (Started, s'))"
proof -
  have ok1: "unlocked_ok [''Easy'', ''Medium'']" and ok2: "unlocked_ok [''Easy'']"
    by (simp_all add: unlocked_ok_def tier_order_def numeral_2_eq_2)
  show ?thesis
    using on_diff_change_locked_or_started
            [of "(init_app (default_state_data\<lparr>unlocked := [''Easy'', ''Medium'']\<rparr>))
                   \<lparr>current_diff := ''Hard''\<rparr>" 0 1 2]
          on_diff_change_locked_or_started [of "init_app default_state_data" 0 1 2] ok1 ok2
    by (simp add: init_app_def default_state_data_def) blast
qed


subsection \<open>The board invariant\<close>

lemma board_ok_same:
  assumes "board_ok s" and "given_mask s' = given_mask s" and "puzzle s' = puzzle s"
    and "solution s' = solution s"
  shows "board_ok s'"
  using assms by (simp add: board_ok_def)

lemma board_ok_commit:
  assumes "board_ok s" and "i < 81" and "given_mask s' = (given_mask s)[i := True]"
    and "puzzle s' = (puzzle s)[i := solution s ! i]" and "solution s' = solution s"
  shows "board_ok s'"
  using assms by (auto simp: board_ok_def nth_list_update)

lemma check_selected_board:
  assumes "board_ok s"
  shows "solution (after (check_selected s entry now)) = solution s \<and>
         ((given_mask (after (check_selected s entry now)) = given_mask s \<and>
           puzzle (after (check_selected s entry now)) = puzzle s) \<or>
          (\<exists>i<81. given_mask (after (check_selected s entry now)) = (given_mask s)[i := True] \<and>
                  puzzle (after (check_selected s entry now)) = (puzzle s)[i := solution s ! i]))"
  using assms unfolding check_selected_def Let_def board_ok_def
  by (simp add: win_check_board split: sum.split) blast

lemma give_hint_board:
  assumes "board_ok s"
  shows "solution (after (give_hint s seed)) = solution s \<and>
         ((given_mask (after (give_hint s seed)) = given_mask s \<and>
           puzzle (after (give_hint s seed)) = puzzle s) \<or>
          (\<exists>i<81. given_mask (after (give_hint s seed)) = (given_mask s)[i := True] \<and>
                  puzzle (after (give_hint s seed)) = (puzzle s)[i := solution s ! i]))"
proof (cases "empties s = []")
  case True
  then show ?thesis
    using assms by (simp add: give_hint_def board_ok_def)
next
  case False
  from assms have len: "length (given_mask s) = 81" "length (puzzle s) = 81" "length (solution s) = 81"
    by (simp_all add: board_ok_def)
  note h = give_hint_some [OF len False refl, of seed]
  show ?thesis
    unfolding h(3) using h(1) by (simp add: win_check_board) blast
qed

lemma step_board:
  assumes "board_ok s"
  shows "board_ok (step s ev) \<and> solution (step s ev) = solution s \<and>
         (\<forall>j<81. given_mask s ! j \<longrightarrow> given_mask (step s ev) ! j)"
proof -
  have "solution (step s ev) = solution s \<and>
         ((given_mask (step s ev) = given_mask s \<and> puzzle (step s ev) = puzzle s) \<or>
          (\<exists>i<81. given_mask (step s ev) = (given_mask s)[i := True] \<and>
                  puzzle (step s ev) = (puzzle s)[i := solution s ! i]))"
  proof (cases ev)
    case (Select r c)
    then show ?thesis by (simp add: on_select_def)
  next
    case (Check entry now)
    then show ?thesis using check_selected_board [OF assms, of entry now] by simp
  next
    case Clear
    then show ?thesis by (simp add: clear_selected_after)
  next
    case (Hint seed)
    then show ?thesis using give_hint_board [OF assms, of seed] by simp
  qed
  then consider
      (same) "solution (step s ev) = solution s" "given_mask (step s ev) = given_mask s"
             "puzzle (step s ev) = puzzle s"
    | (commit) i where "i < 81" "solution (step s ev) = solution s"
             "given_mask (step s ev) = (given_mask s)[i := True]"
             "puzzle (step s ev) = (puzzle s)[i := solution s ! i]"
    by blast
  then show ?thesis
  proof cases
    case same
    then show ?thesis using board_ok_same [OF assms same(2,3,1)] by simp
  next
    case commit
    have "board_ok (step s ev)"
      by (rule board_ok_commit [OF assms commit(1,3,4,2)])
    moreover have "\<forall>j<81. given_mask s ! j \<longrightarrow> given_mask (step s ev) ! j"
      using assms commit(1) by (auto simp: commit(3) board_ok_def nth_list_update)
    ultimately show ?thesis using commit(2) by simp
  qed
qed

lemma run_board:
  "board_ok s \<Longrightarrow>
   board_ok (run s evs) \<and> solution (run s evs) = solution s \<and>
   (\<forall>j<81. given_mask s ! j \<longrightarrow> given_mask (run s evs) ! j)"
proof (induction evs arbitrary: s)
  case Nil
  then show ?case by simp
next
  case (Cons ev evs)
  from step_board [OF Cons.prems, of ev] Cons.IH [of "step s ev"]
  show ?case by simp
qed


lemma new_game_tier:
  assumes "new_game s0 t seed now1 now2 = Inr (Started, s)"
  shows "t \<in> set tier_order"
proof (rule ccontr)
  assume "t \<notin> set tier_order"
  then have "map_of PUZZLES t = None"
    by (simp add: PUZZLES_def tier_order_def)
  with assms show False
    by (simp add: new_game_def)
qed

lemma new_game_board:
  assumes "new_game s0 t seed now1 now2 = Inr (Started, s)"
  shows "length (puzzle s) = 81" and "length (solution s) = 81"
    and "given_mask s = map (\<lambda>v. v \<noteq> 0) (puzzle s)"
  using new_game_started [OF new_game_tier [OF assms], of s0 seed now1 now2] assms
  by auto

lemma record_ok_nth:
  "record_ok p q \<Longrightarrow> i < length p \<Longrightarrow> i < length q \<Longrightarrow> p ! i \<noteq> 0 \<Longrightarrow> p ! i = q ! i"
  unfolding record_ok_def list_all_length by fastforce

text \<open>
  Claim C3. When \<^verbatim>\<open>new_game\<close> has loaded a record whose pre-filled digits equal the
  solution digits, every given cell holds its solution digit. From any board where that
  is so, after every sequence of select, check, clear and hint callbacks it is still so,
  the solution is the same, and every cell that was given is still given and still holds
  its solution digit.
\<close>

theorem board_invariant:
  "(new_game s0 t seed now1 now2 = Inr (Started, s) \<and> record_ok (puzzle s) (solution s)
      \<longrightarrow> board_ok s) \<and>
   (board_ok s \<longrightarrow>
      board_ok (run s evs) \<and> solution (run s evs) = solution s \<and>
      (\<forall>i<81. given_mask s ! i \<longrightarrow>
                given_mask (run s evs) ! i \<and> puzzle (run s evs) ! i = solution s ! i))"
proof (intro conjI impI)
  assume a: "new_game s0 t seed now1 now2 = Inr (Started, s) \<and> record_ok (puzzle s) (solution s)"
  note b = new_game_board [of s0 t seed now1 now2 s]
  from a b show "board_ok s"
    unfolding board_ok_def using record_ok_nth [of "puzzle s" "solution s"] by auto
next
  assume ok: "board_ok s"
  note r = run_board [OF ok, of evs]
  from r show "board_ok (run s evs)" by blast
  from r show "solution (run s evs) = solution s" by blast
  from r show "\<forall>i<81. given_mask s ! i \<longrightarrow>
                given_mask (run s evs) ! i \<and> puzzle (run s evs) ! i = solution s ! i"
    unfolding board_ok_def by metis
qed


theorem board_invariant_witness:
  "new_game (init_app default_state_data) ''Easy'' 0 1 2
     = Inr (Started, after (new_game (init_app default_state_data) ''Easy'' 0 1 2)) \<and>
   record_ok (puzzle (after (new_game (init_app default_state_data) ''Easy'' 0 1 2)))
             (solution (after (new_game (init_app default_state_data) ''Easy'' 0 1 2))) \<and>
   board_ok (after (new_game (init_app default_state_data) ''Easy'' 0 1 2)) \<and>
   board_ok (run (after (new_game (init_app default_state_data) ''Easy'' 0 1 2))
              [Select 0 2, Check ''4'' 5, Hint 1, Clear])"
proof -
  let ?s = "after (new_game (init_app default_state_data) ''Easy'' 0 1 2)"
  have g: "new_game (init_app default_state_data) ''Easy'' 0 1 2 = Inr (Started, ?s)"
    by (simp add: new_game_def PUZZLES_def random_choice_def digit_val_def)
  have r: "record_ok (puzzle ?s) (solution ?s)"
    by (simp add: new_game_def PUZZLES_def random_choice_def digit_val_def record_ok_def)
  show ?thesis
    using board_invariant [of "init_app default_state_data" "''Easy''" 0 1 2 ?s
                              "[Select 0 2, Check ''4'' 5, Hint 1, Clear]"] g r
    by blast
qed

text \<open>Of the six records in \<^verbatim>\<open>PUZZLES\<close>, the first Easy and the first Medium record meet
  the PuzzleRecord invariant; the other four have a pre-filled digit that differs from
  the solution digit.\<close>

lemma shipped_records:
  "map (\<lambda>(t, recs).
          map (\<lambda>(ps, qs).
                 case (parse_grid ps, parse_grid qs) of
                   (Inr p, Inr q) \<Rightarrow> record_ok p q
                 | _ \<Rightarrow> False) recs) PUZZLES
     = [[True, False], [True, False], [False, False]]"
  by (simp add: PUZZLES_def digit_val_def record_ok_def)

subsection \<open>A locked selection and the completion bonus\<close>

lemma all_equal_same: "\<forall>i\<in>set js. i < length p \<Longrightarrow> all_equal js p p = Inr True"
  by (induction js) simp_all

lemma is_completed_solved:
  "length (puzzle s) = 81 \<Longrightarrow> puzzle s = solution s \<Longrightarrow> is_completed s = Inr True"
  unfolding is_completed_def using all_equal_same [of "[0..<81]" "solution s"] by simp

lemma parse_easy_first:
  "parse_grid ''530070000600195000098000060800060003400803001700020006060000280000419005000080079''
     = Inr [5, 3, 0, 0, 7, 0, 0, 0, 0, 6, 0, 0, 1, 9, 5, 0, 0, 0, 0, 9, 8, 0, 0, 0, 0, 6,
        0, 8, 0, 0, 0, 6, 0, 0, 0, 3, 4, 0, 0, 8, 0, 3, 0, 0, 1, 7, 0, 0, 0, 2, 0, 0, 0,
        6, 0, 6, 0, 0, 0, 0, 2, 8, 0, 0, 0, 0, 4, 1, 9, 0, 0, 5, 0, 0, 0, 0, 8, 0, 0, 7,
        9]"
  "parse_grid ''534678912672195348198342567859761423426853791713924856961537284287419635345286179''
     = Inr [5, 3, 4, 6, 7, 8, 9, 1, 2, 6, 7, 2, 1, 9, 5, 3, 4, 8, 1, 9, 8, 3, 4, 2, 5, 6,
        7, 8, 5, 9, 7, 6, 1, 4, 2, 3, 4, 2, 6, 8, 5, 3, 7, 9, 1, 7, 1, 3, 9, 2, 4, 8, 5,
        6, 9, 6, 1, 5, 3, 7, 2, 8, 4, 2, 8, 7, 4, 1, 9, 6, 3, 5, 3, 4, 5, 2, 8, 6, 1, 7,
        9]"
  by (simp_all add: digit_val_def)

text \<open>
  Claim C4 says that completing a puzzle of tier \<open>t\<close> pays the bonus of \<open>t\<close> and unlocks
  the successor of \<open>t\<close>. The tier paid is the one in \<^verbatim>\<open>current_diff\<close>, and a locked
  selection moves \<^verbatim>\<open>current_diff\<close> without starting a game. With Easy and Medium
  unlocked: a game on the first Easy record is running, the player selects Hard (locked,
  so the combobox falls back to Medium and the Easy board stays), all cells but cell 2
  are revealed by hints, and the player enters the last digit. The Easy board is complete,
  the coins are 2 for the entry plus 40, the Medium bonus, and Hard is unlocked.
\<close>

theorem easy_board_pays_medium_bonus:
  "(let s1 = after (new_game (init_app (default_state_data\<lparr>unlocked := [''Easy'', ''Medium'']\<rparr>))
                     ''Easy'' 0 1 2);
        s2 = after (on_diff_change (s1\<lparr>current_diff := ''Hard''\<rparr>) 0 3 4);
        s3 = s2\<lparr>puzzle := (solution s2)[2 := 0],
                given_mask := (replicate 81 True)[2 := False],
                selected := (0, 2)\<rparr>;
        s4 = after (check_selected s3 ''4'' 10)
    in parse_grid ''534678912672195348198342567859761423426853791713924856961537284287419635345286179''
         = Inr (solution s3) \<and>
       puzzle s2 = puzzle s1 \<and>
       current_diff s1 = ''Easy'' \<and> current_diff s3 = ''Medium'' \<and>
       coins s3 = 0 \<and> unlocked (state_data s3) = [''Easy'', ''Medium''] \<and>
       is_completed s4 = Inr True \<and>
       coins s4 = 2 + 40 \<and>
       unlocked (state_data s4) = [''Easy'', ''Medium'', ''Hard''])"
proof -
  define P :: "int list" where "P = [5, 3, 0, 0, 7, 0, 0, 0, 0, 6, 0, 0, 1, 9, 5, 0, 0, 0, 0, 9, 8, 0, 0, 0, 0, 6,
        0, 8, 0, 0, 0, 6, 0, 0, 0, 3, 4, 0, 0, 8, 0, 3, 0, 0, 1, 7, 0, 0, 0, 2, 0, 0, 0,
        6, 0, 6, 0, 0, 0, 0, 2, 8, 0, 0, 0, 0, 4, 1, 9, 0, 0, 5, 0, 0, 0, 0, 8, 0, 0, 7,
        9]"
  define Q :: "int list" where "Q = [5, 3, 4, 6, 7, 8, 9, 1, 2, 6, 7, 2, 1, 9, 5, 3, 4, 8, 1, 9, 8, 3, 4, 2, 5, 6,
        7, 8, 5, 9, 7, 6, 1, 4, 2, 3, 4, 2, 6, 8, 5, 3, 7, 9, 1, 7, 1, 3, 9, 2, 4, 8, 5,
        6, 9, 6, 1, 5, 3, 7, 2, 8, 4, 2, 8, 7, 4, 1, 9, 6, 3, 5, 3, 4, 5, 2, 8, 6, 1, 7,
        9]"
  define a where "a = init_app (default_state_data\<lparr>unlocked := [''Easy'', ''Medium'']\<rparr>)"
  define s1 where "s1 = a\<lparr>puzzle := P, solution := Q, given_mask := map (\<lambda>v. v \<noteq> 0) P, score := 0,
                    info_var := ''Fill cells. Faster correct checks = more points!'',
                    selected := (0, 0), last_correct_time := Some 1,
                    start_time := Some 2, timer_running := True\<rparr>"
  define s3 where "s3 = s1\<lparr>current_diff := ''Medium'', puzzle := Q[2 := 0],
                given_mask := (replicate 81 True)[2 := False], selected := (0, 2)\<rparr>"
  define s4 where "s4 = s3\<lparr>last_correct_time := Some 10, score := score s3 + 11,
                coins := coins s3 + 11 div 5,
                state_data := (state_data s3)\<lparr>sd_coins := coins s3 + 11 div 5\<rparr>,
                puzzle := (puzzle s3)[2 := solution s3 ! 2],
                given_mask := (given_mask s3)[2 := True]\<rparr>"
  have lenP: "length P = 81" and lenQ: "length Q = 81" and Q2: "Q ! 2 = 4"
    by (simp_all add: P_def Q_def)
  have pp: "parse_grid ''530070000600195000098000060800060003400803001700020006060000280000419005000080079'' = Inr P"
    and pq: "parse_grid ''534678912672195348198342567859761423426853791713924856961537284287419635345286179'' = Inr Q"
    unfolding P_def Q_def by (rule parse_easy_first)+
  have g: "new_game a ''Easy'' 0 1 2 = Inr (Started, s1)"
    unfolding new_game_def s1_def
    by (simp add: PUZZLES_def random_choice_def pp pq lenP del: parse_grid.simps)
  have d: "on_diff_change (s1\<lparr>current_diff := ''Hard''\<rparr>) 0 3 4
             = Inr (Locked ''Medium'', s1\<lparr>current_diff := ''Medium''\<rparr>)"
    by (simp add: on_diff_change_def Let_def s1_def a_def init_app_def default_state_data_def)
  have c: "check_selected s3 ''4'' 10 = win_check Correct s4"
    unfolding s4_def
    by (rule check_selected_correct [where prev = 1])
       (simp_all add: s3_def s1_def a_def init_app_def grid_index_def lenQ Q2 strip_def
          isdigit_def py_int_def is_space_def digit_val_def int_of_float_def)
  have p4: "puzzle s4 = Q" "solution s4 = Q"
    by (simp_all add: s4_def s3_def s1_def list_update_same_conv [THEN iffD2] Q2 [symmetric])
  have cmp: "is_completed s4 = Inr True"
    by (rule is_completed_solved) (simp_all add: p4 lenQ)
  have cd: "current_diff s4 = ''Medium''"
    by (simp add: s4_def s3_def)
  have w: "on_win s4 = Inr ((40, if ''Hard'' \<in> set (unlocked (state_data s4)) then None else Some ''Hard''),
                s4\<lparr>timer_running := False, coins := coins s4 + 40,
                  state_data := (state_data s4)
                    \<lparr>sd_coins := coins s4 + 40,
                     unlocked := (if ''Hard'' \<in> set (unlocked (state_data s4))
                                  then unlocked (state_data s4)
                                  else unlocked (state_data s4) @ [''Hard''])\<rparr>\<rparr>)"
    using on_win_tier [OF cd, of 40 "Some ''Hard''"] by simp
  have f: "after (check_selected s3 ''4'' 10) =
             s4\<lparr>timer_running := False, coins := coins s4 + 40,
                  state_data := (state_data s4)
                    \<lparr>sd_coins := coins s4 + 40,
                     unlocked := (if ''Hard'' \<in> set (unlocked (state_data s4))
                                  then unlocked (state_data s4)
                                  else unlocked (state_data s4) @ [''Hard''])\<rparr>\<rparr>"
    unfolding c win_check_def by (simp add: cmp w)
  have e3: "(after (on_diff_change (s1\<lparr>current_diff := ''Hard''\<rparr>) 0 3 4))
              \<lparr>puzzle := (solution (after (on_diff_change (s1\<lparr>current_diff := ''Hard''\<rparr>) 0 3 4)))[2 := 0],
               given_mask := (replicate 81 True)[2 := False], selected := (0, 2)\<rparr> = s3"
    unfolding d by (simp add: s3_def s1_def)
  have fin: "is_completed (after (check_selected s3 ''4'' 10)) = Inr True"
    unfolding f by (rule is_completed_solved) (simp_all add: p4 lenQ)
  have vals: "coins (after (check_selected s3 ''4'' 10)) = 2 + 40"
    "unlocked (state_data (after (check_selected s3 ''4'' 10))) = [''Easy'', ''Medium'', ''Hard'']"
    unfolding f by (simp_all add: s4_def s3_def s1_def a_def init_app_def default_state_data_def)
  have pre: "solution s3 = Q" "current_diff s1 = ''Easy''" "current_diff s3 = ''Medium''"
    "coins s3 = 0" "unlocked (state_data s3) = [''Easy'', ''Medium'']"
    by (simp_all add: s3_def s1_def a_def init_app_def default_state_data_def)
  have same: "puzzle (after (on_diff_change (s1\<lparr>current_diff := ''Hard''\<rparr>) 0 3 4)) = puzzle s1"
    unfolding d by simp
  show ?thesis
    unfolding Let_def a_def [symmetric] g after_Inr e3
    using pq pre same fin vals by simp
qed

end
